theory Spec2Isabelle
  imports Complex_Main "HOL-Library.Word" "HOL-Library.AList"
begin

unbundle bit_operations_syntax

section \<open>The OpenAI client: data model\<close>

text \<open>
  The development embeds \<^verbatim>\<open>src/client.ts\<close> (the class \<^verbatim>\<open>OpenAIClient\<close>) and the
  credential check of \<^verbatim>\<open>src/index.ts\<close>.

  The values of \<^verbatim>\<open>Date.now()\<close> and the retry budget are integers far below \<open>2^53\<close>,
  which a JavaScript number holds exactly, and are modelled as \<^typ>\<open>int\<close>. The number
  read from a header can be anything and has a type of its own, \<open>number\<close> below. Numbers
  inside request bodies are never computed with, only passed on, and are modelled as
  \<^typ>\<open>real\<close>. Strings are byte strings; a header value as Node delivers it (latin-1
  decoded) has one character per byte.
\<close>

type_synonym byte = "8 word"

datatype json =
    JNull
  | JBool bool
  | JNum real
  | JStr string
  | JArr "json list"
  | JObj "(string \<times> json) list"

text \<open>A request body is a JavaScript object: keys in insertion order, no key twice.\<close>

type_synonym body = "(string \<times> json) list"

datatype http_method = GET | POST

datatype response_type = JsonBody | ArrayBuffer

record http_request =
  meth :: http_method
  url :: string
  body :: "body option"
  responseType :: response_type

text \<open>
  The response of the transport. Its payload type \<open>'d\<close> is \<^typ>\<open>json\<close> for the
  JSON endpoints and \<^typ>\<open>byte list\<close> where the request asks for an
  \<^verbatim>\<open>arraybuffer\<close>.
\<close>

record 'd http_response =
  status :: int
  headers :: "(string \<times> string) list"
  data :: 'd

text \<open>
  What a request can throw: an \<^verbatim>\<open>AxiosError\<close>, with the response when the server
  answered (a status outside 2xx) and without one on a network failure, or any other
  exception.
\<close>

datatype 'd error =
    AxiosError "'d http_response option"
  | OtherError string

text \<open>
  The observable events of a run, in the order they happen: an outbound request with the
  clock value at which it is issued, and the two kinds of timer with the delay (in
  milliseconds) the timer runs for.
\<close>

datatype event =
    Issued int http_request
  | SpacingWait int
  | BackoffWait int

text \<open>
  The mutable state: the field \<^verbatim>\<open>lastRequestTime\<close> of the client, the clock that
  \<^verbatim>\<open>Date.now()\<close> reads, and the trace of events so far.
\<close>

record state =
  clock :: int
  lastRequestTime :: int
  trace :: "event list"

text \<open>
  The environment of a run, fixed in advance: what the transport answers to the \<open>k\<close>-th
  exchange and how long that exchange takes, and by how many milliseconds the \<open>k\<close>-th
  timer fires late. Quantifying over environments covers every transport and every
  scheduler delay. The clock never goes backwards and a timer never fires early.
\<close>

record 'd env =
  respond :: "nat \<Rightarrow> 'd error + 'd http_response"
  latency :: "nat \<Rightarrow> nat"
  overshoot :: "nat \<Rightarrow> nat"

fun is_Issued :: "event \<Rightarrow> bool" where
  "is_Issued (Issued t rq) = True"
| "is_Issued (SpacingWait d) = False"
| "is_Issued (BackoffWait d) = False"

definition attempts :: "event list \<Rightarrow> nat" where
  "attempts tr = length (filter is_Issued tr)"

definition timers :: "event list \<Rightarrow> nat" where
  "timers tr = length (filter (\<lambda>ev. \<not> is_Issued ev) tr)"

fun issue_times :: "event list \<Rightarrow> int list" where
  "issue_times [] = []"
| "issue_times (Issued t rq # tr) = t # issue_times tr"
| "issue_times (SpacingWait d # tr) = issue_times tr"
| "issue_times (BackoffWait d # tr) = issue_times tr"

fun requests_of :: "event list \<Rightarrow> http_request list" where
  "requests_of [] = []"
| "requests_of (Issued t rq # tr) = rq # requests_of tr"
| "requests_of (SpacingWait d # tr) = requests_of tr"
| "requests_of (BackoffWait d # tr) = requests_of tr"

fun backoffs :: "event list \<Rightarrow> int list" where
  "backoffs [] = []"
| "backoffs (Issued t rq # tr) = backoffs tr"
| "backoffs (SpacingWait d # tr) = backoffs tr"
| "backoffs (BackoffWait d # tr) = d # backoffs tr"

section \<open>The dispatcher\<close>

definition RATE_LIMIT_DELAY :: int where
  "RATE_LIMIT_DELAY = 100"

text \<open>
  A JavaScript number as far as the dispatcher computes with it: \<open>Num n\<close> is the integer
  \<open>n\<close>, of magnitude below \<open>2^53\<close>, which a double holds exactly; \<open>NaN\<close> is
  not-a-number; \<open>Huge\<close> is any double of magnitude \<open>2^53\<close> or more, finite or infinite,
  of either sign. Which double a \<open>Huge\<close> value is, the model leaves open: an integer of
  that size is rounded, and nothing below depends on more than its size.
\<close>

datatype number = NaN | Num int | Huge

definition to_number :: "int \<Rightarrow> number" where
  "to_number n = (if \<bar>n\<bar> < 2 ^ 53 then Num n else Huge)"

text \<open>\<^verbatim>\<open>x * 1000\<close> on numbers.\<close>

definition times_1000 :: "number \<Rightarrow> number" where
  "times_1000 x = (case x of NaN \<Rightarrow> NaN | Num n \<Rightarrow> to_number (n * 1000) | Huge \<Rightarrow> Huge)"

text \<open>
  The delay a timer of Node runs for. \<^verbatim>\<open>setTimeout\<close> is the runtime's, not the
  repository's: it takes a delay from 1 to \<open>2^31 - 1\<close> milliseconds as it is and sets
  every other one, \<^verbatim>\<open>NaN\<close> included, to 1 millisecond.
\<close>

definition TIMEOUT_MAX :: int where
  "TIMEOUT_MAX = 2147483647"

definition timer_delay :: "number \<Rightarrow> int" where
  "timer_delay x =
     (case x of
        Num d \<Rightarrow> if 1 \<le> d \<and> d \<le> TIMEOUT_MAX then d else 1
      | NaN \<Rightarrow> 1
      | Huge \<Rightarrow> 1)"

text \<open>
  \<^verbatim>\<open>await new Promise((resolve) => setTimeout(resolve, x))\<close>: the event is logged with
  the delay the timer runs for, and the clock moves on by that delay plus the timer's
  overshoot.
\<close>

definition sleep :: "'d env \<Rightarrow> (int \<Rightarrow> event) \<Rightarrow> number \<Rightarrow> state \<Rightarrow> state" where
  "sleep e kind x s =
     s\<lparr>clock := clock s + timer_delay x + int (overshoot e (timers (trace s))),
       trace := trace s @ [kind (timer_delay x)]\<rparr>"

definition rateLimit :: "'d env \<Rightarrow> state \<Rightarrow> state" where
  "rateLimit e s =
     (let now = clock s;
          timeSinceLastRequest = now - lastRequestTime s;
          s1 = (if timeSinceLastRequest < RATE_LIMIT_DELAY
                then sleep e SpacingWait (to_number (RATE_LIMIT_DELAY - timeSinceLastRequest)) s
                else s)
      in s1\<lparr>lastRequestTime := clock s1\<rparr>)"

text \<open>
  One HTTP exchange through the axios instance: the request is issued at the current
  clock value, the environment decides the outcome and the time it takes.
\<close>

definition exchange ::
  "'d env \<Rightarrow> http_request \<Rightarrow> state \<Rightarrow> ('d error + 'd http_response) \<times> state" where
  "exchange e rq s =
     (let k = attempts (trace s)
      in (respond e k,
          s\<lparr>clock := clock s + int (latency e k),
            trace := trace s @ [Issued (clock s) rq]\<rparr>))"

subsection \<open>The retry-after header\<close>

text \<open>
  \<^verbatim>\<open>parseInt(string, 10)\<close> of ECMAScript: leading white space is skipped, one sign is
  read, then the longest prefix of decimal digits; without a digit the result is
  \<^verbatim>\<open>NaN\<close>, otherwise the number nearest to the signed value of the digits. The white
  space characters that fit a byte are TAB, LF, VT, FF, CR, SP and NBSP.
\<close>

definition is_white :: "char \<Rightarrow> bool" where
  "is_white c = (of_char c \<in> {9, 10, 11, 12, 13, 32, 160 :: nat})"

definition is_digit :: "char \<Rightarrow> bool" where
  "is_digit c = (48 \<le> (of_char c :: nat) \<and> (of_char c :: nat) \<le> 57)"

definition digits_value :: "string \<Rightarrow> int" where
  "digits_value z = foldl (\<lambda>acc c. acc * 10 + (of_char c - 48)) 0 z"

definition parseInt :: "string \<Rightarrow> number" where
  "parseInt str =
     (let s = dropWhile is_white str;
          neg = (s \<noteq> [] \<and> hd s = CHR ''-'');
          s1 = (if s \<noteq> [] \<and> (hd s = CHR ''+'' \<or> hd s = CHR ''-'') then tl s else s);
          z = takeWhile is_digit s1
      in if z = [] then NaN
         else to_number ((if neg then - 1 else 1) * digits_value z))"

text \<open>
  \<^verbatim>\<open>parseInt(headers["retry-after"] as string, 10) || 1\<close>: a missing header is
  \<^verbatim>\<open>undefined\<close>, whose string form has no digits; \<^verbatim>\<open>NaN\<close> and \<open>0\<close> are falsy.
\<close>

definition retryAfter :: "'d http_response \<Rightarrow> number" where
  "retryAfter r =
     (case map_of (headers r) ''retry-after'' of
        None \<Rightarrow> Num 1
      | Some v \<Rightarrow>
          (case parseInt v of
             NaN \<Rightarrow> Num 1
           | Num n \<Rightarrow> if n = 0 then Num 1 else Num n
           | Huge \<Rightarrow> Huge))"

subsection \<open>handleRequest\<close>

text \<open>
  \<^verbatim>\<open>axios.isAxiosError(error) && error.response?.status === 429\<close>, returning the
  response when the test holds.
\<close>

fun throttled :: "'d error \<Rightarrow> 'd http_response option" where
  "throttled (AxiosError (Some r)) = (if status r = 429 then Some r else None)"
| "throttled (AxiosError None) = None"
| "throttled (OtherError m) = None"

text \<open>
  A request closure runs in the state and either throws (\<open>Inl\<close>) or returns (\<open>Inr\<close>).
  \<^verbatim>\<open>handleRequest\<close> recurses on a retry budget that strictly decreases while positive.
  The budget is an integer: the method is private, every caller leaves it at the default
  3, and the recursion passes \<^verbatim>\<open>retries - 1\<close>.
\<close>

type_synonym ('d, 'a) request = "state \<Rightarrow> ('d error + 'a) \<times> state"

function handleRequest ::
  "'d env \<Rightarrow> ('d, 'a) request \<Rightarrow> int \<Rightarrow> state \<Rightarrow> ('d error + 'a) \<times> state" where
  "handleRequest e request retries s =
     (case request (rateLimit e s) of
        (Inr v, s2) \<Rightarrow> (Inr v, s2)
      | (Inl err, s2) \<Rightarrow>
          (case throttled err of
             Some r \<Rightarrow>
               if retries > 0
               then handleRequest e request (retries - 1)
                      (sleep e BackoffWait (times_1000 (retryAfter r)) s2)
               else (Inl err, s2)
           | None \<Rightarrow> (Inl err, s2)))"
  by pat_completeness auto
termination
  by (relation "measure (\<lambda>(e, request, retries, s). nat retries)") auto

declare handleRequest.simps [simp del]

section \<open>The operations\<close>

text \<open>
  Every operation passes \<^verbatim>\<open>handleRequest\<close> a closure that performs one exchange through
  the axios instance and maps the response: \<^verbatim>\<open>response.data\<close> for the JSON endpoints.
  The retry budget is the default, 3.
\<close>

definition perform ::
  "'d env \<Rightarrow> http_request \<Rightarrow> ('d http_response \<Rightarrow> 'a) \<Rightarrow> ('d, 'a) request" where
  "perform e rq f s =
     (case exchange e rq s of
        (Inl err, s') \<Rightarrow> (Inl err, s')
      | (Inr r, s') \<Rightarrow> (Inr (f r), s'))"

definition post :: "string \<Rightarrow> body \<Rightarrow> http_request" where
  "post u b = \<lparr>meth = POST, url = u, body = Some b, responseType = JsonBody\<rparr>"

definition get :: "string \<Rightarrow> http_request" where
  "get u = \<lparr>meth = GET, url = u, body = None, responseType = JsonBody\<rparr>"

text \<open>
  \<^verbatim>\<open>if (x !== undefined) body.k = x\<close>: an optional argument is \<open>None\<close> when
  \<^verbatim>\<open>undefined\<close>; assigning a property replaces the value of an existing key and
  appends a new one.
\<close>

definition assign_if_defined :: "string \<Rightarrow> ('a \<Rightarrow> json) \<Rightarrow> 'a option \<Rightarrow> body \<Rightarrow> body" where
  "assign_if_defined k conv x b = (case x of None \<Rightarrow> b | Some v \<Rightarrow> AList.update k (conv v) b)"

definition chatCompletion_body ::
  "string \<Rightarrow> json list \<Rightarrow> real option \<Rightarrow> real option \<Rightarrow> real option \<Rightarrow>
   json list option \<Rightarrow> json option \<Rightarrow> body" where
  "chatCompletion_body model messages temperature maxTokens topP tools toolChoice =
     (let body = [(''model'', JStr model), (''messages'', JArr messages)];
          body = assign_if_defined ''temperature'' JNum temperature body;
          body = assign_if_defined ''max_tokens'' JNum maxTokens body;
          body = assign_if_defined ''top_p'' JNum topP body;
          body = assign_if_defined ''tools'' JArr tools body;
          body = assign_if_defined ''tool_choice'' id toolChoice body
      in body)"

definition chatCompletion ::
  "json env \<Rightarrow> string \<Rightarrow> json list \<Rightarrow> real option \<Rightarrow> real option \<Rightarrow> real option \<Rightarrow>
   json list option \<Rightarrow> json option \<Rightarrow> state \<Rightarrow> (json error + json) \<times> state" where
  "chatCompletion e model messages temperature maxTokens topP tools toolChoice =
     handleRequest e
       (perform e
          (post ''/chat/completions''
             (chatCompletion_body model messages temperature maxTokens topP tools toolChoice))
          data)
       3"

text \<open>The embedding input is \<^verbatim>\<open>string | string[]\<close>.\<close>

datatype embedding_input = Single string | Many "string list"

fun input_json :: "embedding_input \<Rightarrow> json" where
  "input_json (Single x) = JStr x"
| "input_json (Many xs) = JArr (map JStr xs)"

definition createEmbedding_body :: "string \<Rightarrow> embedding_input \<Rightarrow> real option \<Rightarrow> body" where
  "createEmbedding_body model input dimensions =
     (let body = [(''model'', JStr model), (''input'', input_json input)];
          body = assign_if_defined ''dimensions'' JNum dimensions body
      in body)"




text \<open>
  \<^verbatim>\<open>model: model || "dall-e-3"\<close>: the key is always written; an \<^verbatim>\<open>undefined\<close> or
  empty model is falsy and gives the default.
\<close>

definition createImage_body ::
  "string \<Rightarrow> string option \<Rightarrow> string option \<Rightarrow> string option \<Rightarrow> real option \<Rightarrow> body" where
  "createImage_body prompt model size' quality n =
     (let body = [(''prompt'', JStr prompt),
                  (''model'', JStr (case model of
                                      None \<Rightarrow> ''dall-e-3''
                                    | Some m \<Rightarrow> if m = [] then ''dall-e-3'' else m))];
          body = assign_if_defined ''size'' JStr size' body;
          body = assign_if_defined ''quality'' JStr quality body;
          body = assign_if_defined ''n'' JNum n body
      in body)"


definition createTranscription_body ::
  "string \<Rightarrow> string \<Rightarrow> string option \<Rightarrow> string option \<Rightarrow> body" where
  "createTranscription_body model fileUrl language responseFormat =
     (let body = [(''model'', JStr model), (''file'', JStr fileUrl)];
          body = assign_if_defined ''language'' JStr language body;
          body = assign_if_defined ''response_format'' JStr responseFormat body
      in body)"

definition createTranscription ::
  "json env \<Rightarrow> string \<Rightarrow> string \<Rightarrow> string option \<Rightarrow> string option \<Rightarrow> state \<Rightarrow>
   (json error + json) \<times> state" where
  "createTranscription e model fileUrl language responseFormat =
     handleRequest e
       (perform e
          (post ''/audio/transcriptions''
             (createTranscription_body model fileUrl language responseFormat))
          data)
       3"

definition moderateContent_body :: "string \<Rightarrow> string option \<Rightarrow> body" where
  "moderateContent_body input model =
     (let body = [(''input'', JStr input)];
          body = assign_if_defined ''model'' JStr model body
      in body)"


subsection \<open>Speech synthesis and base64\<close>

text \<open>
  Modelled from the spec: the base64 encoding. \<^verbatim>\<open>Buffer.from(response.data).toString("base64")\<close>
  is Node's encoder, which is not among the repository's files; the spec calls its
  result the base64 string of the bytes, which is taken as RFC 4648's: the standard
  alphabet, three bytes to four characters, padding with \<open>=\<close>. \<open>base64_decode\<close> is
  the decoder of the same RFC; it accepts padded input of the standard alphabet only.
\<close>

definition b64_alphabet :: string where
  "b64_alphabet = ''ABCDEFGHIJKLMNOPQRSTUVWXYZabcdefghijklmnopqrstuvwxyz0123456789+/''"

definition b64_char :: "byte \<Rightarrow> char" where
  "b64_char w = b64_alphabet ! unat w"

fun base64 :: "byte list \<Rightarrow> string" where
  "base64 (a # b # c # rest) =
     b64_char (drop_bit 2 a) #
     b64_char (push_bit 4 (take_bit 2 a) OR drop_bit 4 b) #
     b64_char (push_bit 2 (take_bit 4 b) OR drop_bit 6 c) #
     b64_char (take_bit 6 c) # base64 rest"
| "base64 [a, b] =
     [b64_char (drop_bit 2 a),
      b64_char (push_bit 4 (take_bit 2 a) OR drop_bit 4 b),
      b64_char (push_bit 2 (take_bit 4 b)),
      CHR ''='']"
| "base64 [a] =
     [b64_char (drop_bit 2 a), b64_char (push_bit 4 (take_bit 2 a)), CHR ''='', CHR ''='']"
| "base64 [] = []"

definition b64_value :: "char \<Rightarrow> byte option" where
  "b64_value c = map_of (zip b64_alphabet (map of_nat [0..<64])) c"

fun base64_decode :: "string \<Rightarrow> byte list option" where
  "base64_decode [] = Some []"
| "base64_decode (c0 # c1 # c2 # c3 # rest) =
     (case (b64_value c0, b64_value c1) of
        (Some v0, Some v1) \<Rightarrow>
          (if rest = [] \<and> c2 = CHR ''='' \<and> c3 = CHR ''=''
           then Some [push_bit 2 v0 OR drop_bit 4 v1]
           else (case b64_value c2 of
              Some v2 \<Rightarrow>
                (if rest = [] \<and> c3 = CHR ''=''
                 then Some [push_bit 2 v0 OR drop_bit 4 v1, push_bit 4 v1 OR drop_bit 2 v2]
                 else (case (b64_value c3, base64_decode rest) of
                    (Some v3, Some bs) \<Rightarrow>
                      Some (  (push_bit 2 v0 OR drop_bit 4 v1)
                            # (push_bit 4 v1 OR drop_bit 2 v2)
                            # (push_bit 6 v2 OR v3) # bs)
                  | _ \<Rightarrow> None))
            | None \<Rightarrow> None))
      | _ \<Rightarrow> None)"
| "base64_decode _ = None"

record speech_response =
  audio_base64 :: string

definition createSpeech_body ::
  "string \<Rightarrow> string \<Rightarrow> string \<Rightarrow> string option \<Rightarrow> real option \<Rightarrow> body" where
  "createSpeech_body model input voice responseFormat speed =
     (let body = [(''model'', JStr model), (''input'', JStr input), (''voice'', JStr voice)];
          body = assign_if_defined ''response_format'' JStr responseFormat body;
          body = assign_if_defined ''speed'' JNum speed body
      in body)"

definition createSpeech ::
  "byte list env \<Rightarrow> string \<Rightarrow> string \<Rightarrow> string \<Rightarrow> string option \<Rightarrow> real option \<Rightarrow>
   state \<Rightarrow> (byte list error + speech_response) \<times> state" where
  "createSpeech e model input voice responseFormat speed =
     handleRequest e
       (perform e
          \<lparr>meth = POST, url = ''/audio/speech'',
           body = Some (createSpeech_body model input voice responseFormat speed),
           responseType = ArrayBuffer\<rparr>
          (\<lambda>response. \<lparr>audio_base64 = base64 (data response)\<rparr>))
       3"

section \<open>Construction\<close>

text \<open>
  The constructor takes the optional argument and the value of the environment variable
  \<^verbatim>\<open>OPENAI_API_KEY\<close>. \<^verbatim>\<open>apiKey || process.env.OPENAI_API_KEY\<close> and \<^verbatim>\<open>!key\<close>
  test truthiness: of a \<^verbatim>\<open>string | undefined\<close>, \<^verbatim>\<open>undefined\<close> and the empty string
  are falsy. A new client has \<^verbatim>\<open>lastRequestTime = 0\<close> and has issued nothing.
\<close>

datatype js_error = Error string

record client =
  baseURL :: string
  authorization :: string
  contentType :: string

definition BASE_URL :: string where
  "BASE_URL = ''https://api.openai.com/v1''"

fun truthy :: "string option \<Rightarrow> bool" where
  "truthy None = False"
| "truthy (Some k) = (k \<noteq> [])"

definition new_OpenAIClient :: "string option \<Rightarrow> string option \<Rightarrow> js_error + client" where
  "new_OpenAIClient apiKey envKey =
     (let key = (if truthy apiKey then apiKey else envKey)
      in case key of
           None \<Rightarrow> Inl (Error ''OPENAI_API_KEY environment variable is required'')
         | Some k \<Rightarrow>
             if k = []
             then Inl (Error ''OPENAI_API_KEY environment variable is required'')
             else Inr \<lparr>baseURL = BASE_URL,
                       authorization = ''Bearer '' @ k,
                       contentType = ''application/json''\<rparr>)"

definition fresh :: "int \<Rightarrow> state" where
  "fresh now = \<lparr>clock = now, lastRequestTime = 0, trace = []\<rparr>"

text \<open>
  \<^verbatim>\<open>createServer\<close> of \<^verbatim>\<open>index.ts\<close> makes the same test on the environment variable
  before it registers the tools; the result is the key the tools later construct
  their client with.
\<close>

definition createServer :: "string option \<Rightarrow> js_error + string" where
  "createServer envKey =
     (case envKey of
        None \<Rightarrow> Inl (Error ''OPENAI_API_KEY environment variable is required'')
      | Some apiKey \<Rightarrow>
          if apiKey = []
          then Inl (Error ''OPENAI_API_KEY environment variable is required'')
          else Inr apiKey)"

section \<open>Calls in sequence and calls that overlap\<close>

text \<open>Calls awaited one after the other: each is a request with its retry budget.\<close>

fun calls :: "'d env \<Rightarrow> (http_request \<times> int) list \<Rightarrow> state \<Rightarrow> state" where
  "calls e [] s = s"
| "calls e ((rq, retries) # cs) s = calls e cs (snd (handleRequest e (perform e rq id) retries s))"

fun spaced :: "int list \<Rightarrow> bool" where
  "spaced [] = True"
| "spaced [t] = True"
| "spaced (t # u # ts) = (RATE_LIMIT_DELAY \<le> u - t \<and> spaced (u # ts))"

text \<open>
  Calls that are not awaited one by one overlap: JavaScript runs each call up to its
  next \<^verbatim>\<open>await\<close> and then lets another continue. A call is suspended at one of
  four places of \<^verbatim>\<open>handleRequest\<close>: at its entry; in the timer of \<^verbatim>\<open>rateLimit\<close>
  (with the time the timer is due); in \<^verbatim>\<open>await request()\<close> (with the time the
  exchange completes and its outcome); in the backoff timer. Each carries the retry
  budget of the invocation.
\<close>

datatype 'd pc =
    AtEntry int
  | InRateLimit int int
  | InRequest int "'d error + 'd http_response" int
  | InBackoff int int
  | Settled "'d error + 'd http_response"

text \<open>
  Line 109 of \<^verbatim>\<open>rateLimit\<close> and the call of \<^verbatim>\<open>request()\<close>: no time passes between
  them.
\<close>

definition issue :: "'d env \<Rightarrow> http_request \<Rightarrow> int \<Rightarrow> state \<Rightarrow> 'd pc \<times> state" where
  "issue e rq retries s =
     (let s1 = s\<lparr>lastRequestTime := clock s\<rparr>;
          k = attempts (trace s1)
      in (InRequest (clock s1 + int (latency e k)) (respond e k) retries,
          s1\<lparr>trace := trace s1 @ [Issued (clock s1) rq]\<rparr>))"

text \<open>Lines 102 to 108 of \<^verbatim>\<open>rateLimit\<close>: either the timer is set, or the call goes on.\<close>

definition enter :: "'d env \<Rightarrow> http_request \<Rightarrow> int \<Rightarrow> state \<Rightarrow> 'd pc \<times> state" where
  "enter e rq retries s =
     (let now = clock s;
          timeSinceLastRequest = now - lastRequestTime s
      in if timeSinceLastRequest < RATE_LIMIT_DELAY
         then (InRateLimit
                 (now + timer_delay (to_number (RATE_LIMIT_DELAY - timeSinceLastRequest))) retries,
               s\<lparr>trace := trace s @
                  [SpacingWait (timer_delay (to_number (RATE_LIMIT_DELAY - timeSinceLastRequest)))]\<rparr>)
         else issue e rq retries s)"

text \<open>The \<^verbatim>\<open>try\<close>/\<^verbatim>\<open>catch\<close> of \<^verbatim>\<open>handleRequest\<close>, once the exchange is over.\<close>

definition settle ::
  "'d env \<Rightarrow> 'd error + 'd http_response \<Rightarrow> int \<Rightarrow> state \<Rightarrow> 'd pc \<times> state" where
  "settle e outcome retries s =
     (case outcome of
        Inr v \<Rightarrow> (Settled (Inr v), s)
      | Inl err \<Rightarrow>
          (case throttled err of
             Some r \<Rightarrow>
               if retries > 0
               then (InBackoff (clock s + timer_delay (times_1000 (retryAfter r))) (retries - 1),
                     s\<lparr>trace := trace s @
                        [BackoffWait (timer_delay (times_1000 (retryAfter r)))]\<rparr>)
               else (Settled (Inl err), s)
           | None \<Rightarrow> (Settled (Inl err), s)))"

text \<open>
  A suspended call continues when what it waits for is due; a timer or an exchange that
  is not yet due cannot continue (\<open>None\<close>).
\<close>

fun resume :: "'d env \<Rightarrow> http_request \<Rightarrow> 'd pc \<Rightarrow> state \<Rightarrow> ('d pc \<times> state) option" where
  "resume e rq (AtEntry retries) s = Some (enter e rq retries s)"
| "resume e rq (InRateLimit due retries) s =
     (if due \<le> clock s then Some (issue e rq retries s) else None)"
| "resume e rq (InRequest due outcome retries) s =
     (if due \<le> clock s then Some (settle e outcome retries s) else None)"
| "resume e rq (InBackoff due retries) s =
     (if due \<le> clock s then Some (enter e rq retries s) else None)"
| "resume e rq (Settled outcome) s = None"

text \<open>
  The event loop: either the \<open>i\<close>-th call continues up to its next suspension, or
  time passes.
\<close>

datatype action = Run nat | Advance nat

type_synonym 'd system = "state \<times> (http_request \<times> 'd pc) list"

fun step :: "'d env \<Rightarrow> action \<Rightarrow> 'd system \<Rightarrow> 'd system option" where
  "step e (Advance d) (s, ts) = Some (s\<lparr>clock := clock s + int d\<rparr>, ts)"
| "step e (Run i) (s, ts) =
     (if i < length ts
      then (case resume e (fst (ts ! i)) (snd (ts ! i)) s of
              None \<Rightarrow> None
            | Some (p, s') \<Rightarrow> Some (s', ts[i := (fst (ts ! i), p)]))
      else None)"

fun run :: "'d env \<Rightarrow> action list \<Rightarrow> 'd system \<Rightarrow> 'd system option" where
  "run e [] sys = Some sys"
| "run e (a # as) sys = (case step e a sys of None \<Rightarrow> None | Some sys' \<Rightarrow> run e as sys')"

section \<open>Notions used in the statements\<close>

text \<open>What the spacing check of \<^verbatim>\<open>rateLimit\<close> adds to the trace in a given state.\<close>

definition spacing_part :: "state \<Rightarrow> event list" where
  "spacing_part s =
     (if clock s - lastRequestTime s < RATE_LIMIT_DELAY
      then [SpacingWait (timer_delay (to_number (RATE_LIMIT_DELAY - (clock s - lastRequestTime s))))]
      else [])"

text \<open>The delay, in milliseconds, of the backoff timer set after the 429 response \<open>r\<close>.\<close>

definition backoff_ms :: "'d http_response \<Rightarrow> int" where
  "backoff_ms r = timer_delay (times_1000 (retryAfter r))"

text \<open>An outcome that \<^verbatim>\<open>handleRequest\<close> treats as throttling: an axios error with status 429.\<close>

definition is_429 :: "'d error + 'd http_response \<Rightarrow> bool" where
  "is_429 x = (case x of Inl err \<Rightarrow> throttled err \<noteq> None | Inr r \<Rightarrow> False)"

text \<open>
  The invariant of calls made in sequence: the last request was issued no later than now,
  no request was issued after \<^verbatim>\<open>lastRequestTime\<close>, and the issue times are spaced.
\<close>

definition paced :: "state \<Rightarrow> bool" where
  "paced s = (lastRequestTime s \<le> clock s
              \<and> list_all (\<lambda>t. t \<le> lastRequestTime s) (issue_times (trace s))
              \<and> spaced (issue_times (trace s)))"

section \<open>Example environments\<close>

definition throttling :: "string \<Rightarrow> json http_response" where
  "throttling v = \<lparr>status = 429, headers = [(''retry-after'', v)], data = JNull\<rparr>"

definition ok_response :: "json http_response" where
  "ok_response = \<lparr>status = 200, headers = [], data = JObj [(''object'', JStr ''list'')]\<rparr>"

definition env_429 :: "json env" where
  "env_429 = \<lparr>respond = (\<lambda>k. Inl (AxiosError (Some (throttling ''2'')))),
              latency = (\<lambda>k. 20), overshoot = (\<lambda>k. 0)\<rparr>"

definition env_500 :: "json env" where
  "env_500 = \<lparr>respond = (\<lambda>k. Inl (AxiosError (Some \<lparr>status = 500, headers = [], data = JNull\<rparr>))),
              latency = (\<lambda>k. 20), overshoot = (\<lambda>k. 0)\<rparr>"

definition env_once :: "string \<Rightarrow> json env" where
  "env_once v = \<lparr>respond = (\<lambda>k. if k = 0 then Inl (AxiosError (Some (throttling v)))
                                else Inr ok_response),
                 latency = (\<lambda>k. 20), overshoot = (\<lambda>k. 0)\<rparr>"

definition env_ok :: "json env" where
  "env_ok = \<lparr>respond = (\<lambda>k. Inr ok_response), latency = (\<lambda>k. 20), overshoot = (\<lambda>k. 0)\<rparr>"

definition env_bytes :: "byte list \<Rightarrow> byte list env" where
  "env_bytes bs = \<lparr>respond = (\<lambda>k. Inr \<lparr>status = 200, headers = [], data = bs\<rparr>),
                   latency = (\<lambda>k. 20), overshoot = (\<lambda>k. 0)\<rparr>"

text \<open>
  Three calls of \<^verbatim>\<open>listModels\<close> started together on a new client, none awaited before
  the next is made, and the order in which the event loop continues them: each runs
  up to its first suspension, 100 ms pass, and the two timers that are then due fire.
\<close>

definition burst :: "json system" where
  "burst = (fresh 1700000000000,
            [(get ''/models'', AtEntry 3), (get ''/models'', AtEntry 3), (get ''/models'', AtEntry 3)])"

definition burst_schedule :: "action list" where
  "burst_schedule = [Run 0, Run 1, Run 2, Advance 100, Run 1, Run 2]"

section \<open>Traces\<close>

lemma attempts_Nil [simp]: "attempts [] = 0"
  by (simp add: attempts_def)

lemma attempts_Cons [simp]:
  "attempts (ev # tr) = (if is_Issued ev then 1 else 0) + attempts tr"
  by (simp add: attempts_def)

lemma attempts_append [simp]: "attempts (tr @ tr') = attempts tr + attempts tr'"
  by (simp add: attempts_def)

lemma backoffs_append [simp]: "backoffs (tr @ tr') = backoffs tr @ backoffs tr'"
  by (induction tr rule: backoffs.induct) simp_all

lemma requests_of_append [simp]: "requests_of (tr @ tr') = requests_of tr @ requests_of tr'"
  by (induction tr rule: requests_of.induct) simp_all

lemma issue_times_append [simp]: "issue_times (tr @ tr') = issue_times tr @ issue_times tr'"
  by (induction tr rule: issue_times.induct) simp_all

lemma timer_delay_pos: "1 \<le> timer_delay x"
  by (simp add: timer_delay_def split: number.split)

lemma timer_delay_in_range:
  "1 \<le> d \<Longrightarrow> d \<le> TIMEOUT_MAX \<Longrightarrow> timer_delay (Num d) = d"
  by (simp add: timer_delay_def)

lemma trace_sleep [simp]: "trace (sleep e kind x s) = trace s @ [kind (timer_delay x)]"
  by (simp add: sleep_def)

lemma clock_sleep: "clock s + timer_delay x \<le> clock (sleep e kind x s)"
  by (simp add: sleep_def)

lemma trace_rateLimit: "trace (rateLimit e s) = trace s @ spacing_part s"
  by (simp add: rateLimit_def Let_def spacing_part_def)

lemma attempts_spacing_part [simp]: "attempts (spacing_part s) = 0"
  by (simp add: spacing_part_def)

lemma backoffs_spacing_part [simp]: "backoffs (spacing_part s) = []"
  by (simp add: spacing_part_def)

lemma requests_of_spacing_part [simp]: "requests_of (spacing_part s) = []"
  by (simp add: spacing_part_def)

lemma issue_times_spacing_part [simp]: "issue_times (spacing_part s) = []"
  by (simp add: spacing_part_def)

lemma clock_rateLimit: "clock s \<le> clock (rateLimit e s)"
  using timer_delay_pos [of "to_number (RATE_LIMIT_DELAY - (clock s - lastRequestTime s))"]
  by (simp add: rateLimit_def Let_def sleep_def)

lemma trace_exchange [simp]:
  "trace (snd (exchange e rq s)) = trace s @ [Issued (clock s) rq]"
  by (simp add: exchange_def Let_def)

lemma clock_exchange: "clock s \<le> clock (snd (exchange e rq s))"
  by (simp add: exchange_def Let_def)

lemma perform_Inl:
  "respond e (attempts (trace s)) = Inl err \<Longrightarrow>
   perform e rq f s = (Inl err, snd (exchange e rq s))"
  by (simp add: perform_def exchange_def Let_def)

lemma perform_Inr:
  "respond e (attempts (trace s)) = Inr r \<Longrightarrow>
   perform e rq f s = (Inr (f r), snd (exchange e rq s))"
  by (simp add: perform_def exchange_def Let_def)

section \<open>One invocation of handleRequest\<close>

lemma handleRequest_ok:
  assumes "respond e (attempts (trace s)) = Inr r"
  shows "handleRequest e (perform e rq f) retries s =
           (Inr (f r), snd (exchange e rq (rateLimit e s)))"
  using assms by (subst handleRequest.simps) (simp add: perform_Inr trace_rateLimit)

lemma handleRequest_fail:
  assumes "respond e (attempts (trace s)) = Inl err" and "throttled err = None"
  shows "handleRequest e (perform e rq f) retries s =
           (Inl err, snd (exchange e rq (rateLimit e s)))"
  using assms by (subst handleRequest.simps) (simp add: perform_Inl trace_rateLimit)

lemma handleRequest_exhausted:
  assumes "respond e (attempts (trace s)) = Inl err" and "retries \<le> 0"
  shows "handleRequest e (perform e rq f) retries s =
           (Inl err, snd (exchange e rq (rateLimit e s)))"
  using assms
  by (subst handleRequest.simps) (simp add: perform_Inl trace_rateLimit split: option.split)

lemma handleRequest_retry:
  assumes "respond e (attempts (trace s)) = Inl err" and "throttled err = Some r"
    and "0 < retries"
  shows "handleRequest e (perform e rq f) retries s =
           handleRequest e (perform e rq f) (retries - 1)
             (sleep e BackoffWait (times_1000 (retryAfter r)) (snd (exchange e rq (rateLimit e s))))"
  using assms by (subst handleRequest.simps) (simp add: perform_Inl trace_rateLimit)

text \<open>Every invocation begins with the spacing check and then issues its request.\<close>

lemma handleRequest_begins:
  "\<exists>rest. trace (snd (handleRequest e (perform e rq f) retries s)) =
     trace (rateLimit e s) @ Issued (clock (rateLimit e s)) rq # rest
     \<and> requests_of rest = replicate (attempts rest) rq"
proof (induction e "perform e rq f :: ('a, 'b) request" retries s rule: handleRequest.induct)
  case (1 e retries s)
  let ?s1 = "rateLimit e s"
  let ?s2 = "snd (exchange e rq ?s1)"
  show ?case
  proof (cases "respond e (attempts (trace s))")
    case (Inr r)
    then show ?thesis by (simp add: handleRequest_ok)
  next
    case (Inl err)
    show ?thesis
    proof (cases "throttled err")
      case None
      with Inl show ?thesis by (simp add: handleRequest_fail)
    next
      case (Some r)
      show ?thesis
      proof (cases "0 < retries")
        case False
        with Inl show ?thesis by (simp add: handleRequest_exhausted)
      next
        case True
        let ?s3 = "sleep e BackoffWait (times_1000 (retryAfter r)) ?s2"
        have p: "perform e rq f ?s1 = (Inl err, ?s2)"
          using Inl by (simp add: perform_Inl trace_rateLimit)
        from "1.hyps" [OF p [symmetric] refl Some True]
        obtain rest where rest:
          "trace (snd (handleRequest e (perform e rq f) (retries - 1) ?s3)) =
             trace (rateLimit e ?s3) @ Issued (clock (rateLimit e ?s3)) rq # rest"
          "requests_of rest = replicate (attempts rest) rq"
          by blast
        have "trace (snd (handleRequest e (perform e rq f) retries s)) =
                trace ?s1 @ Issued (clock ?s1) rq #
                  (BackoffWait (backoff_ms r) # spacing_part ?s3 @
                     Issued (clock (rateLimit e ?s3)) rq # rest)"
          using rest(1) Inl Some True
          by (simp add: handleRequest_retry trace_rateLimit backoff_ms_def)
        moreover have "requests_of (BackoffWait (backoff_ms r) # spacing_part ?s3 @
                     Issued (clock (rateLimit e ?s3)) rq # rest) =
              replicate (attempts (BackoffWait (backoff_ms r) # spacing_part ?s3 @
                     Issued (clock (rateLimit e ?s3)) rq # rest)) rq"
          using rest(2) by simp
        ultimately show ?thesis by blast
      qed
    qed
  qed
qed

lemma always_429_run:
  assumes "\<And>k. is_429 (respond e k)"
  shows "attempts (trace (snd (handleRequest e (perform e rq f) (int n) s))) =
           attempts (trace s) + n + 1
       \<and> (\<exists>err. respond e (attempts (trace s) + n) = Inl err
              \<and> fst (handleRequest e (perform e rq f) (int n) s) = Inl err)"
proof (induction n arbitrary: s)
  case 0
  obtain err where r: "respond e (attempts (trace s)) = Inl err"
    using assms [of "attempts (trace s)"] by (auto simp add: is_429_def split: sum.splits)
  show ?case
    using handleRequest_exhausted [OF r, of 0 rq f] r by (simp add: trace_rateLimit)
next
  case (Suc n)
  obtain err r where r: "respond e (attempts (trace s)) = Inl err" "throttled err = Some r"
    using assms [of "attempts (trace s)"] by (auto simp add: is_429_def split: sum.splits)
  let ?s' = "sleep e BackoffWait (times_1000 (retryAfter r)) (snd (exchange e rq (rateLimit e s)))"
  have step: "handleRequest e (perform e rq f) (int (Suc n)) s =
                handleRequest e (perform e rq f) (int n) ?s'"
    using handleRequest_retry [OF r, of "int (Suc n)" rq f] by simp
  have "attempts (trace ?s') = attempts (trace s) + 1" by (simp add: trace_rateLimit)
  with Suc [of ?s'] step show ?case by simp
qed

text \<open>What an invocation returns is what the closure made of a response.\<close>

lemma handleRequest_returns:
  "fst (handleRequest e (perform e rq f) retries s) = Inr v \<Longrightarrow>
   \<exists>k r. respond e k = Inr r \<and> v = f r"
proof (induction e "perform e rq f :: ('a, 'b) request" retries s rule: handleRequest.induct)
  case (1 e retries s)
  let ?s2 = "snd (exchange e rq (rateLimit e s))"
  show ?case
  proof (cases "respond e (attempts (trace s))")
    case (Inr r)
    with "1.prems" show ?thesis by (auto simp add: handleRequest_ok)
  next
    case (Inl err)
    show ?thesis
    proof (cases "throttled err = None \<or> retries \<le> 0")
      case True
      then have "handleRequest e (perform e rq f) retries s = (Inl err, ?s2)"
        using Inl handleRequest_fail [of e s err rq f retries]
          handleRequest_exhausted [of e s err retries rq f] by blast
      with "1.prems" show ?thesis by simp
    next
      case False
      then obtain r where r: "throttled err = Some r" and pos: "0 < retries" by auto
      have p: "perform e rq f (rateLimit e s) = (Inl err, ?s2)"
        using Inl by (simp add: perform_Inl trace_rateLimit)
      have "fst (handleRequest e (perform e rq f) (retries - 1)
                   (sleep e BackoffWait (times_1000 (retryAfter r)) ?s2)) = Inr v"
        using "1.prems" Inl r pos by (simp add: handleRequest_retry)
      from "1.hyps" [OF p [symmetric] refl r pos this] show ?thesis .
    qed
  qed
qed

section \<open>The retry bound\<close>

text \<open>
  Claim C1. Against a transport that answers every exchange with HTTP 429, a call with
  retry budget \<open>R \<ge> 0\<close> makes exactly \<open>R + 1\<close> attempts and then fails with the
  error of the last exchange, unchanged; with \<open>R = 0\<close> it makes exactly one attempt.
\<close>

theorem retry_bound:
  assumes "\<forall>k. is_429 (respond e k)" and "0 \<le> R"
  shows "attempts (trace (snd (handleRequest e (perform e rq f) R s))) =
           attempts (trace s) + nat R + 1
       \<and> (\<exists>err. respond e (attempts (trace s) + nat R) = Inl err
              \<and> fst (handleRequest e (perform e rq f) R s) = Inl err)"
  using always_429_run [of e rq f "nat R" s] assms by simp

theorem retry_bound_witness:
  "attempts (trace (snd (handleRequest env_429 (perform env_429 (get ''/models'') data) 3 (fresh 1000)))) = 4
   \<and> fst (handleRequest env_429 (perform env_429 (get ''/models'') data) 3 (fresh 1000)) =
       Inl (AxiosError (Some (throttling ''2'')))
   \<and> attempts (trace (snd (handleRequest env_429 (perform env_429 (get ''/models'') data) 0 (fresh 1000)))) = 1"
  using retry_bound [of env_429 3 "get ''/models''" data "fresh 1000"]
    retry_bound [of env_429 0 "get ''/models''" data "fresh 1000"]
  by (simp add: env_429_def is_429_def throttling_def fresh_def)

section \<open>Errors that are not retried\<close>

text \<open>
  Claim C7. When the exchange fails with an error that is not an axios error with status
  429 (another status, a network failure without a response, any other exception), the
  call fails with that very error after one attempt and without a backoff timer, whatever
  the retry budget.
\<close>

theorem no_retry_on_other_errors:
  assumes "respond e (attempts (trace s)) = Inl err" and "throttled err = None"
  shows "fst (handleRequest e (perform e rq f) retries s) = Inl err
       \<and> attempts (trace (snd (handleRequest e (perform e rq f) retries s))) = attempts (trace s) + 1
       \<and> backoffs (trace (snd (handleRequest e (perform e rq f) retries s))) = backoffs (trace s)"
  using assms by (simp add: handleRequest_fail trace_rateLimit)

theorem no_retry_on_other_errors_witness:
  "fst (handleRequest env_500 (perform env_500 (get ''/models'') data) 3 (fresh 1000)) =
     Inl (AxiosError (Some \<lparr>status = 500, headers = [], data = JNull\<rparr>))
   \<and> attempts (trace (snd (handleRequest env_500 (perform env_500 (get ''/models'') data) 3 (fresh 1000)))) = 1
   \<and> backoffs (trace (snd (handleRequest env_500 (perform env_500 (get ''/models'') data) 3 (fresh 1000)))) = []"
  using no_retry_on_other_errors [of env_500 "fresh 1000"
      "AxiosError (Some \<lparr>status = 500, headers = [], data = JNull\<rparr>)" "get ''/models''" data 3]
  by (simp add: env_500_def fresh_def)

section \<open>The backoff\<close>

text \<open>
  A throttled attempt with budget left: the invocation goes on as the invocation with one
  retry less, started when the backoff timer has run; the trace continues with the
  backoff timer, then the spacing check, then the next attempt, which is issued no
  earlier than the timer's delay after the failed one.
\<close>

lemma retry_shape:
  assumes "respond e (attempts (trace s)) = Inl err" and "throttled err = Some r"
    and "0 < retries"
  shows "\<exists>t t' mid rest s3.
           trace (snd (handleRequest e (perform e rq f) retries s)) =
             trace (rateLimit e s) @
               Issued t rq # BackoffWait (backoff_ms r) # mid @ Issued t' rq # rest
           \<and> attempts mid = 0 \<and> backoffs mid = [] \<and> t + backoff_ms r \<le> t'
           \<and> handleRequest e (perform e rq f) retries s =
               handleRequest e (perform e rq f) (retries - 1) s3
           \<and> clock s3 =
               clock (snd (exchange e rq (rateLimit e s))) + backoff_ms r +
               int (overshoot e (timers (trace (snd (exchange e rq (rateLimit e s))))))"
proof -
  let ?s1 = "rateLimit e s"
  let ?s2 = "snd (exchange e rq ?s1)"
  let ?s3 = "sleep e BackoffWait (times_1000 (retryAfter r)) ?s2"
  obtain rest where rest:
    "trace (snd (handleRequest e (perform e rq f) (retries - 1) ?s3)) =
       trace (rateLimit e ?s3) @ Issued (clock (rateLimit e ?s3)) rq # rest"
    using handleRequest_begins [of e rq f "retries - 1" ?s3] by blast
  have step: "handleRequest e (perform e rq f) retries s =
                handleRequest e (perform e rq f) (retries - 1) ?s3"
    using assms by (rule handleRequest_retry)
  have "trace (snd (handleRequest e (perform e rq f) retries s)) =
          trace ?s1 @ Issued (clock ?s1) rq # BackoffWait (backoff_ms r) #
            spacing_part ?s3 @ Issued (clock (rateLimit e ?s3)) rq # rest"
    using rest by (simp add: step trace_rateLimit backoff_ms_def)
  moreover have "clock ?s1 + backoff_ms r \<le> clock (rateLimit e ?s3)"
    using clock_exchange [of ?s1 e rq]
      clock_sleep [of ?s2 "times_1000 (retryAfter r)" e BackoffWait]
      clock_rateLimit [of ?s3 e]
    by (simp add: backoff_ms_def)
  moreover have "clock ?s3 = clock ?s2 + backoff_ms r + int (overshoot e (timers (trace ?s2)))"
    by (simp add: sleep_def backoff_ms_def)
  ultimately show ?thesis
    using step attempts_spacing_part backoffs_spacing_part by blast
qed

lemmas parseInt_simps =
  parseInt_def is_white_def is_digit_def digits_value_def to_number_def

lemmas backoff_simps = backoff_ms_def retryAfter_def times_1000_def to_number_def
  timer_delay_def TIMEOUT_MAX_def

text \<open>
  Claim C3, as stated, fails in two ways. The header \<open>retry-after: 0\<close> is present and
  parses to the integer 0, yet the wait is 1000 ms, not 0 ms, so the default of one second
  is not confined to an absent or unparsable header. The header \<open>retry-after: 2147484\<close>
  parses to that integer, yet the timer, whose delay would exceed \<open>2^31 - 1\<close> ms, runs
  for 1 ms and the retry is issued 100 ms after the failed attempt, when the spacing
  check lets it go.
\<close>

theorem backoff_delay_counterexample:
  "map_of (headers (throttling ''0'')) ''retry-after'' = Some ''0''
   \<and> parseInt ''0'' = Num 0
   \<and> trace (snd (handleRequest (env_once ''0'') (perform (env_once ''0'') (get ''/models'') data)
              3 (fresh 1000))) =
       [Issued 1000 (get ''/models''), BackoffWait 1000, Issued 2020 (get ''/models'')]
   \<and> parseInt ''2147484'' = Num 2147484
   \<and> trace (snd (handleRequest (env_once ''2147484'')
                    (perform (env_once ''2147484'') (get ''/models'') data) 3 (fresh 1000))) =
       [Issued 1000 (get ''/models''), BackoffWait 1, SpacingWait 79,
        Issued 1100 (get ''/models'')]"
proof -
  have "map_of (headers (throttling ''0'')) ''retry-after'' = Some ''0''"
    by (simp add: throttling_def)
  moreover have "parseInt ''0'' = Num 0"
    by (simp add: parseInt_simps)
  moreover have
    "trace (snd (handleRequest (env_once ''0'') (perform (env_once ''0'') (get ''/models'') data)
              3 (fresh 1000))) =
       [Issued 1000 (get ''/models''), BackoffWait 1000, Issued 2020 (get ''/models'')]"
    by code_simp
  moreover have "parseInt ''2147484'' = Num 2147484"
    by (simp add: parseInt_simps)
  moreover have
    "trace (snd (handleRequest (env_once ''2147484'')
                    (perform (env_once ''2147484'') (get ''/models'') data) 3 (fresh 1000))) =
       [Issued 1000 (get ''/models''), BackoffWait 1, SpacingWait 79,
        Issued 1100 (get ''/models'')]"
    by code_simp
  ultimately show ?thesis by simp
qed

text \<open>
  Claim C3, amended. On a 429 failure with budget left the dispatcher reads the
  retry-after header and parses it as an integer count of seconds. When that integer
  \<open>n\<close> is between 1 and 2147483 (so that \<open>n * 1000\<close> ms is a delay the timer takes),
  it waits exactly \<open>n\<close> seconds before retrying: the backoff timer runs for
  \<open>n * 1000\<close> ms, the retry invocation starts when it has run (a timer fires after its
  delay and its overshoot), and the next attempt is issued no earlier than that after the
  failed one. When the header is absent, does not parse, or parses to zero, the wait is
  the default of one second in the same sense.
\<close>

theorem backoff_delay:
  assumes "respond e (attempts (trace s)) = Inl err" and "throttled err = Some r"
    and "0 < retries"
  shows "\<exists>d t t' mid rest s3.
           trace (snd (handleRequest e (perform e rq f) retries s)) =
             trace (rateLimit e s) @
               Issued t rq # BackoffWait d # mid @ Issued t' rq # rest
           \<and> attempts mid = 0 \<and> backoffs mid = [] \<and> t + d \<le> t'
           \<and> handleRequest e (perform e rq f) retries s =
               handleRequest e (perform e rq f) (retries - 1) s3
           \<and> clock s3 =
               clock (snd (exchange e rq (rateLimit e s))) + d +
               int (overshoot e (timers (trace (snd (exchange e rq (rateLimit e s))))))
           \<and> (\<forall>v n. map_of (headers r) ''retry-after'' = Some v \<and> parseInt v = Num n
                    \<and> 1 \<le> n \<and> n \<le> 2147483
                  \<longrightarrow> d = n * 1000)
           \<and> (map_of (headers r) ''retry-after'' = None \<longrightarrow> d = 1000)
           \<and> (\<forall>v. map_of (headers r) ''retry-after'' = Some v \<and> parseInt v = NaN
                  \<longrightarrow> d = 1000)
           \<and> (\<forall>v. map_of (headers r) ''retry-after'' = Some v \<and> parseInt v = Num 0
                  \<longrightarrow> d = 1000)"
proof -
  from retry_shape [OF assms, of rq f]
  obtain t t' mid rest s3 where shape:
    "trace (snd (handleRequest e (perform e rq f) retries s)) =
       trace (rateLimit e s) @
         Issued t rq # BackoffWait (backoff_ms r) # mid @ Issued t' rq # rest"
    "attempts mid = 0" "backoffs mid = []" "t + backoff_ms r \<le> t'"
    "handleRequest e (perform e rq f) retries s =
       handleRequest e (perform e rq f) (retries - 1) s3"
    "clock s3 =
       clock (snd (exchange e rq (rateLimit e s))) + backoff_ms r +
       int (overshoot e (timers (trace (snd (exchange e rq (rateLimit e s))))))"
    by blast
  have "\<forall>v n. map_of (headers r) ''retry-after'' = Some v \<and> parseInt v = Num n
            \<and> 1 \<le> n \<and> n \<le> 2147483
          \<longrightarrow> backoff_ms r = n * 1000"
    by (auto simp add: backoff_simps)
  moreover have "map_of (headers r) ''retry-after'' = None \<longrightarrow> backoff_ms r = 1000"
    by (simp add: backoff_simps)
  moreover have "\<forall>v. map_of (headers r) ''retry-after'' = Some v \<and> parseInt v = NaN
          \<longrightarrow> backoff_ms r = 1000"
    by (simp add: backoff_simps)
  moreover have "\<forall>v. map_of (headers r) ''retry-after'' = Some v \<and> parseInt v = Num 0
          \<longrightarrow> backoff_ms r = 1000"
    by (simp add: backoff_simps)
  ultimately show ?thesis
    by (rule_tac x = "backoff_ms r" in exI, rule_tac x = t in exI, rule_tac x = t' in exI,
        rule_tac x = mid in exI, rule_tac x = rest in exI, rule_tac x = s3 in exI)
      (use shape in simp)
qed

theorem backoff_delay_witness:
  "\<exists>t t' mid rest.
     trace (snd (handleRequest (env_once ''2'') (perform (env_once ''2'') (get ''/models'') data)
              3 (fresh 1000))) =
       trace (rateLimit (env_once ''2'') (fresh 1000)) @
         Issued t (get ''/models'') # BackoffWait 2000 # mid @ Issued t' (get ''/models'') # rest
     \<and> t + 2000 \<le> t'"
proof -
  have p: "parseInt ''2'' = Num 2"
    by (simp add: parseInt_simps)
  have h: "map_of (headers (throttling ''2'')) ''retry-after'' = Some ''2''"
    by (simp add: throttling_def)
  have a: "respond (env_once ''2'') (attempts (trace (fresh 1000))) =
             Inl (AxiosError (Some (throttling ''2'')))"
    by (simp add: env_once_def fresh_def)
  have b: "throttled (AxiosError (Some (throttling ''2''))) = Some (throttling ''2'')"
    by (simp add: throttling_def)
  from backoff_delay [OF a b, of 3 "get ''/models''" data]
  obtain d t t' mid rest where w:
    "trace (snd (handleRequest (env_once ''2'') (perform (env_once ''2'') (get ''/models'') data)
              3 (fresh 1000))) =
       trace (rateLimit (env_once ''2'') (fresh 1000)) @
         Issued t (get ''/models'') # BackoffWait d # mid @ Issued t' (get ''/models'') # rest"
    "t + d \<le> t'"
    "\<forall>v n. map_of (headers (throttling ''2'')) ''retry-after'' = Some v \<and> parseInt v = Num n
         \<and> 1 \<le> n \<and> n \<le> 2147483
       \<longrightarrow> d = n * 1000"
    by auto
  from w(3) h p have "d = 2000" by simp
  with w(1,2) show ?thesis by auto
qed

text \<open>
  Claim C10. When the retry-after header of a 429 response parses to the integer 0, the
  backoff timer is set to 1000 ms, the default, and the retry is issued no earlier than
  one second after the failed attempt.
\<close>

theorem zero_retry_after_waits_default:
  assumes "respond e (attempts (trace s)) = Inl err" and "throttled err = Some r"
    and "0 < retries"
    and "map_of (headers r) ''retry-after'' = Some v" and "parseInt v = Num 0"
  shows "\<exists>t t' mid rest.
           trace (snd (handleRequest e (perform e rq f) retries s)) =
             trace (rateLimit e s) @
               Issued t rq # BackoffWait 1000 # mid @ Issued t' rq # rest
           \<and> attempts mid = 0 \<and> backoffs mid = [] \<and> t + 1000 \<le> t'"
proof -
  have "backoff_ms r = 1000"
    using assms(4,5) by (simp add: backoff_simps)
  with retry_shape [OF assms(1-3), of rq f] show ?thesis by auto
qed

theorem zero_retry_after_waits_default_witness:
  "\<exists>t t' mid rest.
     trace (snd (handleRequest (env_once ''0'') (perform (env_once ''0'') (get ''/models'') data)
              3 (fresh 1000))) =
       trace (rateLimit (env_once ''0'') (fresh 1000)) @
         Issued t (get ''/models'') # BackoffWait 1000 # mid @ Issued t' (get ''/models'') # rest
     \<and> attempts mid = 0 \<and> backoffs mid = [] \<and> t + 1000 \<le> t'"
proof -
  have a: "respond (env_once ''0'') (attempts (trace (fresh 1000))) =
             Inl (AxiosError (Some (throttling ''0'')))"
    by (simp add: env_once_def fresh_def)
  have b: "throttled (AxiosError (Some (throttling ''0''))) = Some (throttling ''0'')"
    by (simp add: throttling_def)
  have h: "map_of (headers (throttling ''0'')) ''retry-after'' = Some ''0''"
    by (simp add: throttling_def)
  have p: "parseInt ''0'' = Num 0"
    by (simp add: parseInt_simps)
  have c: "(0::int) < 3" by simp
  show ?thesis
    by (rule zero_retry_after_waits_default [OF a b c h p])
qed

section \<open>Request bodies\<close>

lemma map_of_assign_if_defined:
  "map_of (assign_if_defined k conv x b) k' =
     (if k' = k then (case x of None \<Rightarrow> map_of b k | Some v \<Rightarrow> Some (conv v)) else map_of b k')"
  by (cases x) (simp_all add: assign_if_defined_def update_conv')

lemma handleRequest_requests:
  "\<exists>n. 0 < n \<and>
     requests_of (trace (snd (handleRequest e (perform e rq f) retries s))) =
       requests_of (trace s) @ replicate n rq"
proof -
  obtain rest where rest:
    "trace (snd (handleRequest e (perform e rq f) retries s)) =
       trace (rateLimit e s) @ Issued (clock (rateLimit e s)) rq # rest"
    "requests_of rest = replicate (attempts rest) rq"
    using handleRequest_begins [of e rq f retries s] by blast
  have "requests_of (trace (snd (handleRequest e (perform e rq f) retries s))) =
          requests_of (trace s) @ replicate (Suc (attempts rest)) rq"
    using rest by (simp add: trace_rateLimit)
  then show ?thesis by blast
qed

lemma chat_fields:
  "map_of (chatCompletion_body model messages temperature maxTokens topP tools toolChoice) ''temperature'' = map_option JNum temperature"
  "map_of (chatCompletion_body model messages temperature maxTokens topP tools toolChoice) ''max_tokens'' = map_option JNum maxTokens"
  "map_of (chatCompletion_body model messages temperature maxTokens topP tools toolChoice) ''top_p'' = map_option JNum topP"
  "map_of (chatCompletion_body model messages temperature maxTokens topP tools toolChoice) ''tools'' = map_option JArr tools"
  "map_of (chatCompletion_body model messages temperature maxTokens topP tools toolChoice) ''tool_choice'' = toolChoice"
  "map_of (chatCompletion_body model messages temperature maxTokens topP tools toolChoice) ''model'' = Some (JStr model)"
  "map_of (chatCompletion_body model messages temperature maxTokens topP tools toolChoice) ''messages'' = Some (JArr messages)"
  by (simp_all add: chatCompletion_body_def map_of_assign_if_defined split: option.split)

lemma keys_assign_if_defined:
  "k \<notin> set (map fst b) \<Longrightarrow>
   map fst (assign_if_defined k conv x b) = map fst b @ (case x of None \<Rightarrow> [] | Some v \<Rightarrow> [k])"
  by (cases x) (simp_all add: assign_if_defined_def update_keys)

lemma chat_keys:
  "map fst (chatCompletion_body model messages temperature maxTokens topP tools toolChoice) =
     [''model'', ''messages'']
     @ (case temperature of None \<Rightarrow> [] | Some v \<Rightarrow> [''temperature''])
     @ (case maxTokens of None \<Rightarrow> [] | Some v \<Rightarrow> [''max_tokens''])
     @ (case topP of None \<Rightarrow> [] | Some v \<Rightarrow> [''top_p''])
     @ (case tools of None \<Rightarrow> [] | Some v \<Rightarrow> [''tools''])
     @ (case toolChoice of None \<Rightarrow> [] | Some v \<Rightarrow> [''tool_choice''])"
  by (simp add: chatCompletion_body_def keys_assign_if_defined split: option.split)

lemma chat_body:
  "chatCompletion_body model messages temperature maxTokens topP tools toolChoice =
     [(''model'', JStr model), (''messages'', JArr messages)]
     @ (case temperature of None \<Rightarrow> [] | Some v \<Rightarrow> [(''temperature'', JNum v)])
     @ (case maxTokens of None \<Rightarrow> [] | Some v \<Rightarrow> [(''max_tokens'', JNum v)])
     @ (case topP of None \<Rightarrow> [] | Some v \<Rightarrow> [(''top_p'', JNum v)])
     @ (case tools of None \<Rightarrow> [] | Some v \<Rightarrow> [(''tools'', JArr v)])
     @ (case toolChoice of None \<Rightarrow> [] | Some v \<Rightarrow> [(''tool_choice'', v)])"
  by (cases temperature; cases maxTokens; cases topP; cases tools; cases toolChoice)
     (simp_all add: chatCompletion_body_def assign_if_defined_def)







text \<open>
  Claim C4. The body of the chat-completion request has the key of an optional argument
  (temperature, max_tokens, top_p, tools, tool_choice) exactly when the argument is
  defined, and then with the value as supplied; every attempt of the operation is a POST
  to \<open>/chat/completions\<close> with exactly this body.
\<close>

theorem chatCompletion_optional_fields:
  "(let b = chatCompletion_body model messages temperature maxTokens topP tools toolChoice
    in map_of b ''temperature'' = map_option JNum temperature
     \<and> map_of b ''max_tokens'' = map_option JNum maxTokens
     \<and> map_of b ''top_p'' = map_option JNum topP
     \<and> map_of b ''tools'' = map_option JArr tools
     \<and> map_of b ''tool_choice'' = toolChoice
     \<and> map fst b =
           [''model'', ''messages'']
           @ (case temperature of None \<Rightarrow> [] | Some v \<Rightarrow> [''temperature''])
           @ (case maxTokens of None \<Rightarrow> [] | Some v \<Rightarrow> [''max_tokens''])
           @ (case topP of None \<Rightarrow> [] | Some v \<Rightarrow> [''top_p''])
           @ (case tools of None \<Rightarrow> [] | Some v \<Rightarrow> [''tools''])
           @ (case toolChoice of None \<Rightarrow> [] | Some v \<Rightarrow> [''tool_choice''])
     \<and> b =
           [(''model'', JStr model), (''messages'', JArr messages)]
           @ (case temperature of None \<Rightarrow> [] | Some v \<Rightarrow> [(''temperature'', JNum v)])
           @ (case maxTokens of None \<Rightarrow> [] | Some v \<Rightarrow> [(''max_tokens'', JNum v)])
           @ (case topP of None \<Rightarrow> [] | Some v \<Rightarrow> [(''top_p'', JNum v)])
           @ (case tools of None \<Rightarrow> [] | Some v \<Rightarrow> [(''tools'', JArr v)])
           @ (case toolChoice of None \<Rightarrow> [] | Some v \<Rightarrow> [(''tool_choice'', v)])
     \<and> (\<exists>n. 0 < n \<and>
           requests_of (trace (snd (chatCompletion e model messages temperature maxTokens topP
                                      tools toolChoice s))) =
             requests_of (trace s) @
               replicate n \<lparr>meth = POST, url = ''/chat/completions'', body = Some b,
                            responseType = JsonBody\<rparr>))"
proof -
  have sends: "\<exists>n. 0 < n \<and>
           requests_of (trace (snd (chatCompletion e model messages temperature maxTokens topP
                                      tools toolChoice s))) =
             requests_of (trace s) @
               replicate n \<lparr>meth = POST, url = ''/chat/completions'',
                            body = Some (chatCompletion_body model messages temperature
                                           maxTokens topP tools toolChoice),
                            responseType = JsonBody\<rparr>"
    unfolding chatCompletion_def
    using handleRequest_requests [of e
        "post ''/chat/completions''
           (chatCompletion_body model messages temperature maxTokens topP tools toolChoice)"
        data 3 s]
    by (simp add: post_def)
  show ?thesis
    unfolding Let_def
    by (intro conjI) (rule chat_fields chat_keys chat_body sends)+
qed

lemma embedding_fields:
  "map_of (createEmbedding_body model input dimensions) ''dimensions'' = map_option JNum dimensions"
  by (simp add: createEmbedding_body_def map_of_assign_if_defined split: option.split)

lemma image_fields:
  "map_of (createImage_body prompt model size' quality n) ''size'' = map_option JStr size'"
  "map_of (createImage_body prompt model size' quality n) ''quality'' = map_option JStr quality"
  "map_of (createImage_body prompt model size' quality n) ''n'' = map_option JNum n"
  "map_of (createImage_body prompt None size' quality n) ''model'' = Some (JStr ''dall-e-3'')"
  "map_of (createImage_body prompt (Some m) size' quality n) ''model'' =
     Some (JStr (if m = [] then ''dall-e-3'' else m))"
  by (simp_all add: createImage_body_def map_of_assign_if_defined split: option.split)

lemma speech_fields:
  "map_of (createSpeech_body model input voice responseFormat speed) ''response_format'' = map_option JStr responseFormat"
  "map_of (createSpeech_body model input voice responseFormat speed) ''speed'' = map_option JNum speed"
  by (simp_all add: createSpeech_body_def map_of_assign_if_defined split: option.split)

lemma transcription_fields:
  "map_of (createTranscription_body model fileUrl language responseFormat) ''model'' = Some (JStr model)"
  "map_of (createTranscription_body model fileUrl language responseFormat) ''file'' = Some (JStr fileUrl)"
  "map_of (createTranscription_body model fileUrl language responseFormat) ''language'' = map_option JStr language"
  "map_of (createTranscription_body model fileUrl language responseFormat) ''response_format'' = map_option JStr responseFormat"
  by (simp_all add: createTranscription_body_def map_of_assign_if_defined split: option.split)

lemma transcription_keys:
  "map fst (createTranscription_body model fileUrl language responseFormat) =
     [''model'', ''file'']
     @ (case language of None \<Rightarrow> [] | Some v \<Rightarrow> [''language''])
     @ (case responseFormat of None \<Rightarrow> [] | Some v \<Rightarrow> [''response_format''])"
  by (simp add: createTranscription_body_def keys_assign_if_defined split: option.split)

lemma moderation_fields:
  "map_of (moderateContent_body input model) ''model'' = map_option JStr model"
  by (simp add: moderateContent_body_def map_of_assign_if_defined split: option.split)




text \<open>
  Claim C9. Every attempt of the transcription operation posts to
  \<open>/audio/transcriptions\<close> a JSON body, not a multipart upload: its \<open>file\<close> field is the
  file URL string as supplied, next to \<open>model\<close> and the optional fields that were
  supplied.
\<close>

theorem transcription_sends_file_url:
  "(let b = createTranscription_body model fileUrl language responseFormat
    in (\<exists>n. 0 < n \<and>
          requests_of (trace (snd (createTranscription e model fileUrl language responseFormat s))) =
            requests_of (trace s) @
              replicate n \<lparr>meth = POST, url = ''/audio/transcriptions'', body = Some b,
                           responseType = JsonBody\<rparr>)
     \<and> map_of b ''file'' = Some (JStr fileUrl)
     \<and> map_of b ''model'' = Some (JStr model)
     \<and> map_of b ''language'' = map_option JStr language
     \<and> map_of b ''response_format'' = map_option JStr responseFormat
     \<and> map fst b =
           [''model'', ''file'']
           @ (case language of None \<Rightarrow> [] | Some v \<Rightarrow> [''language''])
           @ (case responseFormat of None \<Rightarrow> [] | Some v \<Rightarrow> [''response_format'']))"
  unfolding Let_def createTranscription_def
  using handleRequest_requests [of e
      "post ''/audio/transcriptions''
         (createTranscription_body model fileUrl language responseFormat)" data 3 s]
  by (simp add: transcription_fields transcription_keys post_def)

section \<open>Construction needs a credential\<close>

text \<open>
  Claim C8. Without an explicit argument and without the environment variable the
  constructor throws the configuration error, and so does \<^verbatim>\<open>createServer\<close>; no client
  exists then, so nothing can be issued. Construction succeeds exactly when one of the two
  sources supplies a credential, that is a defined, non-empty string (the code tests
  truthiness, so the empty string counts as absent), and the explicit argument takes
  precedence.
\<close>

theorem credential_required:
  "new_OpenAIClient None None = Inl (Error ''OPENAI_API_KEY environment variable is required'')
   \<and> createServer None = Inl (Error ''OPENAI_API_KEY environment variable is required'')
   \<and> ((truthy apiKey \<or> truthy envKey) = (\<exists>c. new_OpenAIClient apiKey envKey = Inr c))
   \<and> ((\<not> truthy apiKey \<and> \<not> truthy envKey) =
        (new_OpenAIClient apiKey envKey =
           Inl (Error ''OPENAI_API_KEY environment variable is required'')))
   \<and> new_OpenAIClient (Some (c # cs)) envKey =
       Inr \<lparr>baseURL = BASE_URL, authorization = ''Bearer '' @ c # cs,
            contentType = ''application/json''\<rparr>
   \<and> new_OpenAIClient None (Some (c # cs)) =
       Inr \<lparr>baseURL = BASE_URL, authorization = ''Bearer '' @ c # cs,
            contentType = ''application/json''\<rparr>
   \<and> truthy envKey = (\<exists>k. createServer envKey = Inr k)"
  by (cases apiKey; cases envKey)
     (auto simp add: new_OpenAIClient_def createServer_def Let_def split: option.splits)

lemma empty_credential_is_absent:
  "new_OpenAIClient (Some []) None = Inl (Error ''OPENAI_API_KEY environment variable is required'')"
  "new_OpenAIClient None (Some []) = Inl (Error ''OPENAI_API_KEY environment variable is required'')"
  "createServer (Some []) = Inl (Error ''OPENAI_API_KEY environment variable is required'')"
  by (simp_all add: new_OpenAIClient_def createServer_def)

lemma started_server_constructs:
  "createServer envKey = Inr k \<Longrightarrow>
   new_OpenAIClient (Some k) envKey =
     Inr \<lparr>baseURL = BASE_URL, authorization = ''Bearer '' @ k, contentType = ''application/json''\<rparr>"
  by (auto simp add: createServer_def new_OpenAIClient_def split: option.splits if_splits)

section \<open>The speech operation returns the bytes in base64\<close>

lemma distinct_alphabet: "distinct b64_alphabet"
  by (simp add: b64_alphabet_def)

lemma length_alphabet: "length b64_alphabet = 64"
  by (simp add: b64_alphabet_def)

lemma sextet_bound:
  assumes "take_bit 6 w = (w :: byte)"
  shows "unat w < 64"
proof -
  have "unat w = take_bit 6 (unat w)"
    using assms by (metis unsigned_take_bit_eq)
  also have "\<dots> < 2 ^ 6" by (rule take_bit_nat_less_exp)
  finally show ?thesis by simp
qed

lemma b64_value_char:
  assumes "take_bit 6 w = w"
  shows "b64_value (b64_char w) = Some w"
proof -
  have u: "unat w < 64" using assms by (rule sextet_bound)
  have "map_of (zip b64_alphabet (map of_nat [0..<64])) (b64_alphabet ! unat w)
          = Some ((map of_nat [0..<64] :: byte list) ! unat w)"
    by (rule map_of_zip_nth) (use u in \<open>simp_all add: distinct_alphabet length_alphabet\<close>)
  also have "(map of_nat [0..<64] :: byte list) ! unat w = w"
    using u by simp
  finally show ?thesis by (simp add: b64_value_def b64_char_def)
qed

lemma b64_char_not_pad:
  assumes "take_bit 6 w = w"
  shows "b64_char w \<noteq> CHR ''=''"
proof -
  have u: "unat w < 64" using assms by (rule sextet_bound)
  then have "b64_char w \<in> set b64_alphabet"
    by (simp add: b64_char_def length_alphabet)
  moreover have "CHR ''='' \<notin> set b64_alphabet"
    by (simp add: b64_alphabet_def)
  ultimately show ?thesis by metis
qed

lemma byte_index: "n < LENGTH(8) \<Longrightarrow> n \<in> {0, 1, 2, 3, 4, 5, 6, 7 :: nat}"
  by auto

lemma byte_eqI:
  fixes x y :: byte
  assumes "\<And>n. n \<in> {0, 1, 2, 3, 4, 5, 6, 7 :: nat} \<Longrightarrow> bit x n = bit y n"
  shows "x = y"
  by (rule bit_word_eqI) (use assms byte_index in blast)

lemma sextet0: "take_bit 6 (drop_bit 2 (a :: byte)) = drop_bit 2 a"
  by (rule byte_eqI) (auto simp add: bit_simps dest: bit_imp_le_length)

lemma sextet1:
  "take_bit 6 (push_bit 4 (take_bit 2 a) OR drop_bit 4 b) =
     push_bit 4 (take_bit 2 a) OR drop_bit 4 (b :: byte)"
  by (rule byte_eqI) (auto simp add: bit_simps dest: bit_imp_le_length)

lemma sextet2:
  "take_bit 6 (push_bit 2 (take_bit 4 b) OR drop_bit 6 c) =
     push_bit 2 (take_bit 4 b) OR drop_bit 6 (c :: byte)"
  by (rule byte_eqI) (auto simp add: bit_simps dest: bit_imp_le_length)

lemma sextet3: "take_bit 6 (take_bit 6 c) = take_bit 6 (c :: byte)"
  by simp

lemma sextet1_pad: "take_bit 6 (push_bit 4 (take_bit 2 a)) = push_bit 4 (take_bit 2 (a :: byte))"
  by (rule byte_eqI) (auto simp add: bit_simps dest: bit_imp_le_length)

lemma sextet2_pad: "take_bit 6 (push_bit 2 (take_bit 4 b)) = push_bit 2 (take_bit 4 (b :: byte))"
  by (rule byte_eqI) (auto simp add: bit_simps dest: bit_imp_le_length)

lemma byte1: "push_bit 2 (drop_bit 2 a) OR drop_bit 4 (push_bit 4 (take_bit 2 a)) = (a :: byte)"
  by (rule byte_eqI)
    (auto simp add: bit_simps numeral_2_eq_2 [symmetric] numeral_3_eq_3 [symmetric]
       dest: bit_imp_le_length)

lemma byte2: "push_bit 4 (drop_bit 4 b) OR drop_bit 2 (push_bit 2 (take_bit 4 b)) = (b :: byte)"
  by (rule byte_eqI) (auto simp add: bit_simps dest: bit_imp_le_length)

lemma byte3: "push_bit 6 (drop_bit 6 c) OR take_bit 6 c = (c :: byte)"
  by (rule byte_eqI) (auto simp add: bit_simps dest: bit_imp_le_length)

lemmas b64_values =
  b64_value_char [OF sextet0] b64_value_char [OF sextet1] b64_value_char [OF sextet2]
  b64_value_char [OF sextet3] b64_value_char [OF sextet1_pad] b64_value_char [OF sextet2_pad]

lemmas b64_not_pad =
  b64_char_not_pad [OF sextet0] b64_char_not_pad [OF sextet1] b64_char_not_pad [OF sextet2]
  b64_char_not_pad [OF sextet3] b64_char_not_pad [OF sextet1_pad]
  b64_char_not_pad [OF sextet2_pad]

lemma base64_roundtrip: "base64_decode (base64 bs) = Some bs"
proof (induction bs rule: base64.induct)
  case (1 a b c rest)
  then show ?case
    by (simp add: b64_values b64_not_pad byte1 byte2 byte3)
next
  case (2 a b)
  then show ?case
    by (simp add: b64_values b64_not_pad byte1 byte2 byte3)
next
  case (3 a)
  then show ?case
    by (simp add: b64_values b64_not_pad byte1 byte2 byte3)
next
  case 4
  then show ?case by simp
qed

text \<open>
  Claim C6. When the transport answers the speech request with a byte sequence, the
  operation returns a structure with the single field \<open>audio_base64\<close>, and decoding that
  string from base64 gives exactly the bytes of the response; and whatever the operation
  returns, after retries too, decodes to the bytes of a response of the transport.
\<close>

theorem speech_roundtrip:
  "(\<forall>r. respond e (attempts (trace s)) = Inr r \<longrightarrow>
      (\<exists>a. fst (createSpeech e model input voice responseFormat speed s) =
              Inr \<lparr>audio_base64 = a\<rparr>
           \<and> base64_decode a = Some (data r)))
   \<and> (\<forall>x. fst (createSpeech e model input voice responseFormat speed s) = Inr x \<longrightarrow>
      (\<exists>k r. respond e k = Inr r \<and> base64_decode (audio_base64 x) = Some (data r)))"
proof (intro conjI allI impI)
  fix r assume "respond e (attempts (trace s)) = Inr r"
  then show "\<exists>a. fst (createSpeech e model input voice responseFormat speed s) =
               Inr \<lparr>audio_base64 = a\<rparr>
             \<and> base64_decode a = Some (data r)"
    by (simp add: createSpeech_def handleRequest_ok base64_roundtrip)
next
  fix x assume "fst (createSpeech e model input voice responseFormat speed s) = Inr x"
  then have "\<exists>k r. respond e k = Inr r \<and> x = \<lparr>audio_base64 = base64 (data r)\<rparr>"
    unfolding createSpeech_def by (rule handleRequest_returns)
  then obtain k r where "respond e k = Inr r" "x = \<lparr>audio_base64 = base64 (data r)\<rparr>"
    by blast
  then show "\<exists>k r. respond e k = Inr r \<and> base64_decode (audio_base64 x) = Some (data r)"
    by (auto simp add: base64_roundtrip)
qed

theorem speech_roundtrip_witness:
  "fst (createSpeech (env_bytes [1, 2, 3]) ''tts-1'' ''hello'' ''alloy'' None None (fresh 1000)) =
     Inr \<lparr>audio_base64 = ''AQID''\<rparr>
   \<and> base64_decode ''AQID'' = Some [1, 2, 3]"
proof -
  have a: "respond (env_bytes [1, 2, 3]) (attempts (trace (fresh 1000))) =
             Inr \<lparr>status = 200, headers = [], data = [1, 2, 3]\<rparr>"
    by (simp add: env_bytes_def)
  have b: "base64 [1, 2, 3 :: byte] = ''AQID''"
    by code_simp
  have c: "fst (createSpeech (env_bytes [1, 2, 3]) ''tts-1'' ''hello'' ''alloy'' None None
                 (fresh 1000)) = Inr \<lparr>audio_base64 = ''AQID''\<rparr>"
    using b by (simp add: createSpeech_def handleRequest_ok [OF a])
  from speech_roundtrip [of "env_bytes [1, 2, 3]" "fresh 1000" "''tts-1''" "''hello''" "''alloy''"
      None None] a
  obtain x where x:
    "fst (createSpeech (env_bytes [1, 2, 3]) ''tts-1'' ''hello'' ''alloy'' None None
            (fresh 1000)) = Inr \<lparr>audio_base64 = x\<rparr>"
    "base64_decode x = Some [1, 2, 3]"
    by auto
  from x(1) c have "x = ''AQID''" by simp
  with x(2) c show ?thesis by simp
qed

section \<open>Spacing\<close>

text \<open>
  The spacing check runs before every attempt, and calls that are awaited one after the
  other keep their requests at least \<open>RATE_LIMIT_DELAY\<close> apart, retries included.
\<close>

lemma spaced_snoc:
  "spaced ts \<Longrightarrow> list_all (\<lambda>t. t + RATE_LIMIT_DELAY \<le> u) ts \<Longrightarrow> spaced (ts @ [u])"
  by (induction ts rule: spaced.induct) simp_all

lemma lastRequestTime_rateLimit: "lastRequestTime (rateLimit e s) = clock (rateLimit e s)"
  by (simp add: rateLimit_def Let_def)

lemma rateLimit_waits:
  "lastRequestTime s \<le> clock s \<Longrightarrow> lastRequestTime s + RATE_LIMIT_DELAY \<le> clock (rateLimit e s)"
  by (simp add: rateLimit_def Let_def sleep_def timer_delay_def TIMEOUT_MAX_def
        RATE_LIMIT_DELAY_def to_number_def)

lemma paced_attempt:
  assumes "paced s"
  shows "paced (snd (exchange e rq (rateLimit e s)))"
proof -
  let ?s1 = "rateLimit e s"
  have old: "list_all (\<lambda>t. t + RATE_LIMIT_DELAY \<le> clock ?s1) (issue_times (trace s))"
    using assms rateLimit_waits [of s e] by (auto simp add: paced_def list_all_iff)
  have "spaced (issue_times (trace s) @ [clock ?s1])"
    using assms old by (simp add: paced_def spaced_snoc)
  moreover have "list_all (\<lambda>t. t \<le> clock ?s1) (issue_times (trace s))"
    using old by (auto simp add: list_all_iff RATE_LIMIT_DELAY_def)
  ultimately show ?thesis
    by (simp add: paced_def exchange_def Let_def trace_rateLimit lastRequestTime_rateLimit)
qed

lemma paced_sleep: "paced s \<Longrightarrow> paced (sleep e BackoffWait x s)"
  using timer_delay_pos [of x] by (auto simp add: paced_def sleep_def)

lemma paced_handleRequest:
  "paced s \<Longrightarrow> paced (snd (handleRequest e (perform e rq f) retries s))"
proof (induction e "perform e rq f :: ('a, 'b) request" retries s rule: handleRequest.induct)
  case (1 e retries s)
  let ?s2 = "snd (exchange e rq (rateLimit e s))"
  have s2: "paced ?s2" using "1.prems" by (rule paced_attempt)
  show ?case
  proof (cases "respond e (attempts (trace s))")
    case (Inr r)
    with s2 show ?thesis by (simp add: handleRequest_ok)
  next
    case (Inl err)
    show ?thesis
    proof (cases "throttled err")
      case None
      with Inl s2 show ?thesis by (simp add: handleRequest_fail)
    next
      case (Some r)
      show ?thesis
      proof (cases "0 < retries")
        case False
        with Inl s2 show ?thesis by (simp add: handleRequest_exhausted)
      next
        case True
        have p: "perform e rq f (rateLimit e s) = (Inl err, ?s2)"
          using Inl by (simp add: perform_Inl trace_rateLimit)
        have "paced (sleep e BackoffWait (times_1000 (retryAfter r)) ?s2)"
          using s2 by (rule paced_sleep)
        from "1.hyps" [OF p [symmetric] refl Some True this]
        show ?thesis using Inl Some True by (simp add: handleRequest_retry)
      qed
    qed
  qed
qed

lemma paced_calls: "paced s \<Longrightarrow> paced (calls e cs s)"
  by (induction e cs s rule: calls.induct) (simp_all add: paced_handleRequest)

lemma paced_fresh: "0 \<le> now \<Longrightarrow> paced (fresh now)"
  by (simp add: paced_def fresh_def)

lemma sequential_calls_spaced:
  "0 \<le> now \<Longrightarrow> spaced (issue_times (trace (calls e cs (fresh now))))"
  using paced_calls [OF paced_fresh, of now e cs] by (simp add: paced_def)


subsection \<open>Calls that overlap\<close>

text \<open>
  The event loop agrees with \<^verbatim>\<open>handleRequest\<close> as defined above: a call that runs alone
  can be scheduled so that it ends in the state, and with the outcome, that
  \<^verbatim>\<open>handleRequest\<close> gives.
\<close>

lemma run_append:
  "run e (as @ bs) sys = (case run e as sys of None \<Rightarrow> None | Some sys' \<Rightarrow> run e bs sys')"
  by (induction as arbitrary: sys) (simp_all split: option.split)

text \<open>From the entry of an invocation to the completion of its exchange.\<close>

lemma solo_attempt:
  assumes "resume e rq pc s = Some (enter e rq retries s)"
  shows "\<exists>sched. run e sched (s, [(rq, pc)]) =
           Some (snd (exchange e rq (rateLimit e s)),
                 [(rq, InRequest (clock (snd (exchange e rq (rateLimit e s))))
                         (respond e (attempts (trace s))) retries)])"
proof (cases "clock s - lastRequestTime s < RATE_LIMIT_DELAY")
  case True
  let ?d = "timer_delay (to_number (RATE_LIMIT_DELAY - (clock s - lastRequestTime s)))"
  have "1 \<le> ?d" by (rule timer_delay_pos)
  then have "run e [Run 0, Advance (nat ?d + overshoot e (timers (trace s))), Run 0,
               Advance (latency e (attempts (trace s)))] (s, [(rq, pc)]) =
           Some (snd (exchange e rq (rateLimit e s)),
                 [(rq, InRequest (clock (snd (exchange e rq (rateLimit e s))))
                         (respond e (attempts (trace s))) retries)])"
    using True assms
    by (simp add: enter_def issue_def Let_def rateLimit_def sleep_def exchange_def)
  then show ?thesis by blast
next
  case False
  have "run e [Run 0, Advance (latency e (attempts (trace s)))] (s, [(rq, pc)]) =
           Some (snd (exchange e rq (rateLimit e s)),
                 [(rq, InRequest (clock (snd (exchange e rq (rateLimit e s))))
                         (respond e (attempts (trace s))) retries)])"
    using False assms
    by (simp add: enter_def issue_def Let_def rateLimit_def sleep_def exchange_def)
  then show ?thesis by blast
qed

lemma solo_call:
  assumes "resume e rq pc s = Some (enter e rq retries s)"
  shows "\<exists>sched out.
           run e sched (s, [(rq, pc)]) =
             Some (snd (handleRequest e (perform e rq f) retries s), [(rq, Settled out)])
           \<and> fst (handleRequest e (perform e rq f) retries s) = map_sum id f out"
  using assms
proof (induction e "perform e rq f :: ('a, 'b) request" retries s arbitrary: pc
    rule: handleRequest.induct)
  case (1 e retries s)
  let ?s2 = "snd (exchange e rq (rateLimit e s))"
  let ?out = "respond e (attempts (trace s))"
  from solo_attempt [OF "1.prems"] obtain sched where sched:
    "run e sched (s, [(rq, pc)]) = Some (?s2, [(rq, InRequest (clock ?s2) ?out retries)])"
    by blast
  show ?case
  proof (cases ?out)
    case (Inr r)
    have "run e (sched @ [Run 0]) (s, [(rq, pc)]) = Some (?s2, [(rq, Settled (Inr r))])"
      using sched Inr by (simp add: run_append settle_def)
    then show ?thesis using Inr by (metis handleRequest_ok fst_conv snd_conv map_sum.simps(2))
  next
    case (Inl err)
    show ?thesis
    proof (cases "throttled err = None \<or> retries \<le> 0")
      case True
      have "run e (sched @ [Run 0]) (s, [(rq, pc)]) = Some (?s2, [(rq, Settled (Inl err))])"
        using sched Inl True by (auto simp add: run_append settle_def split: option.split)
      moreover have "handleRequest e (perform e rq f) retries s = (Inl err, ?s2)"
        using Inl True handleRequest_fail [of e s err rq f retries]
          handleRequest_exhausted [of e s err retries rq f] by blast
      ultimately show ?thesis by (metis fst_conv snd_conv map_sum.simps(1) id_apply)
    next
      case False
      then obtain r where r: "throttled err = Some r" and pos: "0 < retries" by auto
      let ?d = "backoff_ms r"
      let ?s3 = "sleep e BackoffWait (times_1000 (retryAfter r)) ?s2"
      let ?pc = "InBackoff (clock ?s2 + ?d) (retries - 1)"
      have d: "1 \<le> ?d" unfolding backoff_ms_def by (rule timer_delay_pos)
      have a: "run e (sched @ [Run 0, Advance (nat ?d + overshoot e (timers (trace ?s2)))])
                 (s, [(rq, pc)]) = Some (?s3, [(rq, ?pc)])"
        using sched Inl r pos d by (simp add: run_append settle_def sleep_def backoff_ms_def)
      have b: "resume e rq ?pc ?s3 = Some (enter e rq (retries - 1) ?s3)"
        by (simp add: sleep_def backoff_ms_def)
      have p: "perform e rq f (rateLimit e s) = (Inl err, ?s2)"
        using Inl by (simp add: perform_Inl trace_rateLimit)
      from "1.hyps" [OF p [symmetric] refl r pos b]
      obtain sched' out where c:
        "run e sched' (?s3, [(rq, ?pc)]) =
           Some (snd (handleRequest e (perform e rq f) (retries - 1) ?s3), [(rq, Settled out)])"
        "fst (handleRequest e (perform e rq f) (retries - 1) ?s3) = map_sum id f out"
        by blast
      have "run e ((sched @ [Run 0, Advance (nat ?d + overshoot e (timers (trace ?s2)))])
                    @ sched') (s, [(rq, pc)]) =
              Some (snd (handleRequest e (perform e rq f) retries s), [(rq, Settled out)])"
        using a c(1) Inl r pos by (simp only: run_append handleRequest_retry option.case)
      moreover have "fst (handleRequest e (perform e rq f) retries s) = map_sum id f out"
        using c(2) Inl r pos by (simp add: handleRequest_retry)
      ultimately show ?thesis by blast
    qed
  qed
qed

lemma solo_call_agrees:
  "\<exists>sched out.
     run e sched (s, [(rq, AtEntry retries)]) =
       Some (snd (handleRequest e (perform e rq f) retries s), [(rq, Settled out)])
     \<and> fst (handleRequest e (perform e rq f) retries s) = map_sum id f out"
  by (rule solo_call) simp


text \<open>
  Claim C2. The claim holds for calls made one after the other, as just shown, but not for
  every sequence of calls through one client: \<^verbatim>\<open>rateLimit\<close> reads \<^verbatim>\<open>lastRequestTime\<close>
  before its timer and writes it after, so two calls that wait at the same time both wake
  when the timer is due and both issue their request at once. Here three calls are
  started together: the first is issued at once, the other two wait 100 ms and are then
  issued in the same millisecond.
\<close>

theorem overlapping_calls_not_spaced:
  "map_option (\<lambda>sys. trace (fst sys)) (run env_ok burst_schedule burst) =
     Some [Issued 1700000000000 (get ''/models''), SpacingWait 100, SpacingWait 100,
           Issued 1700000000100 (get ''/models''), Issued 1700000000100 (get ''/models'')]
   \<and> \<not> spaced (issue_times
         [Issued 1700000000000 (get ''/models''), SpacingWait 100, SpacingWait 100,
          Issued 1700000000100 (get ''/models''), Issued 1700000000100 (get ''/models'')])"
proof -
  have "map_option (\<lambda>sys. trace (fst sys)) (run env_ok burst_schedule burst) =
     Some [Issued 1700000000000 (get ''/models''), SpacingWait 100, SpacingWait 100,
           Issued 1700000000100 (get ''/models''), Issued 1700000000100 (get ''/models'')]"
    by code_simp
  moreover have "\<not> spaced [1700000000000, 1700000000100, 1700000000100]"
    by (simp add: RATE_LIMIT_DELAY_def)
  ultimately show ?thesis by simp
qed

end
